theory Spec2Isabelle
  imports Main
begin

section \<open>Data model (types.ts)\<close>

text \<open>
  The interface \<open>PlantAnalysisResult\<close> of \<open>types.ts\<close>. A field marked optional
  (\<open>?\<close>) is an \<open>option\<close>; \<open>None\<close> stands for an absent (undefined) field.
  The two scores are the integers the response schema asks for.
\<close>

record PreparationMethod =
  methodName :: string
  instructions :: string

record Dosage =
  children :: string
  adults :: string
  elderly :: string

record AyurvedicProperties =
  rasa :: "string option"
  virya :: "string option"
  vipaka :: "string option"
  doshaKarma :: "string option"

record PlantAnalysisResult =
  identified :: bool
  commonName :: "string option"
  botanicalName :: "string option"
  ayurvedicName :: "string option"
  family :: "string option"
  shortDescription :: "string option"
  medicinalUses :: "string list option"
  preparationMethods :: "PreparationMethod list option"
  dosage :: "Dosage option"
  safetyWarnings :: "string list option"
  ayurvedicProperties :: "AyurvedicProperties option"
  confidenceScore :: int
  safetyProfileScore :: int

text \<open>
  JavaScript truthiness of an optional string, as tested by \<open>!x\<close> and \<open>x || y\<close>:
  undefined and the empty string are falsy, every other string is truthy.
\<close>

definition truthy :: "string option \<Rightarrow> bool" where
  "truthy x = (case x of None \<Rightarrow> False | Some s \<Rightarrow> s \<noteq> [])"

section \<open>Request preprocessing (geminiService: analyzePlantImage, lines 71-73)\<close>

subsection \<open>\<open>String.prototype.split\<close> on a one-character separator\<close>

text \<open>
  \<open>s.split(',')\<close> cuts \<open>s\<close> at every separator and always returns at least one piece:
  \<open>"".split(',')\<close> is \<open>[""]\<close> and \<open>"a,".split(',')\<close> is \<open>["a", ""]\<close>.
\<close>

fun split :: "char \<Rightarrow> string \<Rightarrow> string list" where
  "split sep [] = [[]]"
| "split sep (c # cs) =
     (if c = sep then [] # split sep cs
      else (case split sep cs of
              piece # pieces \<Rightarrow> (c # piece) # pieces
            | [] \<Rightarrow> [[c]]))"

text \<open>Array indexing \<open>xs[i]\<close>: out of range is undefined.\<close>

definition at_index :: "'a list \<Rightarrow> nat \<Rightarrow> 'a option" where
  "at_index xs i = (if i < length xs then Some (xs ! i) else None)"

subsection \<open>The regular expression of line 73\<close>

text \<open>
  \<open>/data:([a-zA-Z0-9]+\/[a-zA-Z0-9-.+]+).*,.*/\<close> is matched by backtracking. Each
  construct below takes the rest of the input and a continuation for the rest of the
  pattern; a greedy repetition first tries to consume one more character and falls back
  to the continuation when that fails.
\<close>

fun re_lit :: "string \<Rightarrow> string \<Rightarrow> (string \<Rightarrow> 'a option) \<Rightarrow> 'a option" where
  "re_lit [] s k = k s"
| "re_lit (c # cs) [] k = None"
| "re_lit (c # cs) (d # ds) k = (if c = d then re_lit cs ds k else None)"

fun re_star :: "(char \<Rightarrow> bool) \<Rightarrow> string \<Rightarrow> (string \<Rightarrow> 'a option) \<Rightarrow> 'a option" where
  "re_star p [] k = k []"
| "re_star p (c # cs) k =
     (if p c then (case re_star p cs k of Some r \<Rightarrow> Some r | None \<Rightarrow> k (c # cs))
      else k (c # cs))"

fun re_plus :: "(char \<Rightarrow> bool) \<Rightarrow> string \<Rightarrow> (string \<Rightarrow> 'a option) \<Rightarrow> 'a option" where
  "re_plus p [] k = None"
| "re_plus p (c # cs) k = (if p c then re_star p cs k else None)"

definition in_range :: "char \<Rightarrow> char \<Rightarrow> char \<Rightarrow> bool" where
  "in_range lo hi c = ((of_char lo :: nat) \<le> of_char c \<and> (of_char c :: nat) \<le> of_char hi)"

text \<open>The class \<open>[a-zA-Z0-9]\<close>.\<close>

definition is_alnum :: "char \<Rightarrow> bool" where
  "is_alnum c = (in_range CHR ''a'' CHR ''z'' c \<or> in_range CHR ''A'' CHR ''Z'' c
                 \<or> in_range CHR ''0'' CHR ''9'' c)"

text \<open>
  The class \<open>[a-zA-Z0-9-.+]\<close>: after the range \<open>0-9\<close> the dash, the dot and the plus
  are literal members.
\<close>

definition is_subtype_char :: "char \<Rightarrow> bool" where
  "is_subtype_char c = (is_alnum c \<or> c = CHR ''-'' \<or> c = CHR ''.'' \<or> c = CHR ''+'')"

text \<open>
  The dot matches every character except a line terminator. Of the four line terminators
  of the language, line feed and carriage return are characters of the 8-bit type
  \<open>char\<close>; U+2028 and U+2029 lie outside it.
\<close>

definition is_dot :: "char \<Rightarrow> bool" where
  "is_dot c = (c \<noteq> CHR 0x0A \<and> c \<noteq> CHR 0x0D)"

text \<open>
  One attempt to match the whole pattern at the start of \<open>s\<close>; the value is capture
  group 1, the text consumed between the end of \<open>data:\<close> and the end of the subtype.
\<close>

definition mime_regex_at :: "string \<Rightarrow> string option" where
  "mime_regex_at s =
     re_lit ''data:'' s (\<lambda>s1.
     re_plus is_alnum s1 (\<lambda>s2.
     re_lit ''/'' s2 (\<lambda>s3.
     re_plus is_subtype_char s3 (\<lambda>s4.
     re_star is_dot s4 (\<lambda>s5.
     re_lit '','' s5 (\<lambda>s6.
     re_star is_dot s6 (\<lambda>s7.
     Some (take (length s1 - length s4) s1))))))))"

text \<open>
  \<open>s.match(re)\<close> without the global flag: the first start position, from the left, at
  which the pattern matches; \<open>None\<close> is the \<open>null\<close> of no match.
\<close>

fun regex_search :: "(string \<Rightarrow> 'a option) \<Rightarrow> string \<Rightarrow> 'a option" where
  "regex_search m [] = m []"
| "regex_search m (c # cs) =
     (case m (c # cs) of Some r \<Rightarrow> Some r | None \<Rightarrow> regex_search m cs)"

text \<open>
  The operator \<open>x || y\<close> on an optional string and a string: \<open>y\<close> when \<open>x\<close> is
  falsy, \<open>x\<close> otherwise.
\<close>

definition js_or :: "string option \<Rightarrow> string \<Rightarrow> string" where
  "js_or x y = (case x of None \<Rightarrow> y | Some s \<Rightarrow> if s = [] then y else s)"

text \<open>\<open>const cleanBase64 = base64Image.split(',')[1] || base64Image\<close>\<close>

definition cleanBase64 :: "string \<Rightarrow> string" where
  "cleanBase64 base64Image = js_or (at_index (split CHR '','' base64Image) 1) base64Image"

text \<open>\<open>const mimeType = base64Image.match(...)?.[1] || "image/jpeg"\<close>\<close>

definition mimeType :: "string \<Rightarrow> string" where
  "mimeType base64Image = js_or (regex_search mime_regex_at base64Image) ''image/jpeg''"

section \<open>The analysis call (geminiService: analyzePlantImage)\<close>

text \<open>
  The request handed to \<open>ai.models.generateContent\<close>. The instruction text, the response
  schema and the temperature are the same constants in every request and are left out;
  the fields that depend on the input are the two of \<open>inlineData\<close>.
\<close>

record GenerateContentRequest =
  model :: string
  inline_mimeType :: string
  inline_data :: string
  responseMimeType :: string

definition build_request :: "string \<Rightarrow> GenerateContentRequest" where
  "build_request base64Image =
     \<lparr> model = ''gemini-2.5-flash'',
       inline_mimeType = mimeType base64Image,
       inline_data = cleanBase64 base64Image,
       responseMimeType = ''application/json'' \<rparr>"

text \<open>
  Values that can be thrown: an \<open>Error\<close> with its message, the \<open>SyntaxError\<close> of
  \<open>JSON.parse\<close>, the \<open>TypeError\<close> of reading a property of \<open>null\<close>, and whatever
  the service client rejects with.
\<close>

datatype thrown = Error string | SyntaxError | TypeError | ServiceFailure string

text \<open>
  The external service either rejects the call or resolves to a response whose \<open>text\<close>
  is a string or undefined. \<open>JSON.parse\<close> either throws or returns \<open>null\<close> or an
  object, which the source casts to \<open>PlantAnalysisResult\<close>. Both are parameters of the
  model.
\<close>

datatype service_outcome = Rejects thrown | Responds "string option"

datatype parse_outcome = ParseThrows | ParsedNull | ParsedObject PlantAnalysisResult

text \<open>
  Lines 112-115, the safety check on the result structure:
  \<open>if (data.identified && !data.commonName) data.identified = false\<close>.
\<close>

definition safety_check :: "PlantAnalysisResult \<Rightarrow> PlantAnalysisResult" where
  "safety_check data =
     (if identified data \<and> \<not> truthy (commonName data)
      then data\<lparr>identified := False\<rparr> else data)"

text \<open>The body of the \<open>try\<close> block, lines 76-117, with what it throws as \<open>Inl\<close>.\<close>

definition analyze_try ::
  "(GenerateContentRequest \<Rightarrow> service_outcome) \<Rightarrow> (string \<Rightarrow> parse_outcome) \<Rightarrow>
   GenerateContentRequest \<Rightarrow> thrown + PlantAnalysisResult" where
  "analyze_try generateContent JSON_parse request =
     (case generateContent request of
        Rejects e \<Rightarrow> Inl e
      | Responds text \<Rightarrow>
          (case text of
             None \<Rightarrow> Inl (Error ''No response from AI'')
           | Some t \<Rightarrow>
               if t = [] then Inl (Error ''No response from AI'')
               else (case JSON_parse t of
                       ParseThrows \<Rightarrow> Inl SyntaxError
                     | ParsedNull \<Rightarrow> Inl TypeError
                     | ParsedObject data \<Rightarrow> Inr (safety_check data))))"

text \<open>
  The whole function. The second component of the result is the list of requests issued
  to the external service. The \<open>catch\<close> block replaces whatever the \<open>try\<close> block
  threw by one fixed error.
\<close>

definition analyzePlantImage ::
  "string option \<Rightarrow> (GenerateContentRequest \<Rightarrow> service_outcome) \<Rightarrow> (string \<Rightarrow> parse_outcome) \<Rightarrow>
   string \<Rightarrow> (thrown + PlantAnalysisResult) \<times> GenerateContentRequest list" where
  "analyzePlantImage processEnvApiKey generateContent JSON_parse base64Image =
     (if \<not> truthy processEnvApiKey
      then (Inl (Error ''API Key is missing. Please configure the environment.''), [])
      else
        (case analyze_try generateContent JSON_parse (build_request base64Image) of
           Inl error \<Rightarrow> Inl (Error ''Failed to process the image. Please try again.'')
         | Inr data \<Rightarrow> Inr data,
         [build_request base64Image]))"

section \<open>File intake (ImageUploader: processFile)\<close>

text \<open>
  The two properties of a \<open>File\<close> that \<open>processFile\<close> reads: \<open>file.type\<close> and
  \<open>file.size\<close> (a number of bytes).
\<close>

record File =
  file_type :: string
  file_size :: nat

text \<open>
  \<open>reader.readAsDataURL(file)\<close> ends in one of two events. The source installs a
  handler for \<open>load\<close> only; the handler reads \<open>e.target?.result\<close>, which is a string,
  an \<open>ArrayBuffer\<close> or \<open>null\<close>.
\<close>

datatype reader_result = ResultString string | ResultArrayBuffer | ResultNull

datatype reader_event = OnLoad reader_result | OnError

text \<open>A number in a template literal: the decimal digits of a natural number.\<close>

fun string_of_nat :: "nat \<Rightarrow> string" where
  "string_of_nat n =
     (if n < 10 then [char_of (48 + n)]
      else string_of_nat (n div 10) @ [char_of (48 + n mod 10)])"

text \<open>
  \<open>processFile\<close>. The constants \<open>SUPPORTED_IMAGE_TYPES\<close> and \<open>MAX_IMAGE_SIZE_MB\<close> are
  imported from a module that is not part of the sources at hand, so they are
  parameters. The result is the list of messages passed to \<open>alert\<close> and the list of
  arguments with which \<open>onImageSelect\<close> was called.
\<close>

definition processFile ::
  "string list \<Rightarrow> nat \<Rightarrow> File \<Rightarrow> reader_event \<Rightarrow> string list \<times> string list" where
  "processFile SUPPORTED_IMAGE_TYPES MAX_IMAGE_SIZE_MB file event =
     (if file_type file \<notin> set SUPPORTED_IMAGE_TYPES
      then ([''Please upload a valid image (JPEG, PNG, WebP).''], [])
      else if file_size file > MAX_IMAGE_SIZE_MB * 1024 * 1024
      then ([''Image size should be less than '' @ string_of_nat MAX_IMAGE_SIZE_MB @ ''MB.''], [])
      else (case event of
              OnLoad (ResultString r) \<Rightarrow> if r \<noteq> [] then ([], [r]) else ([], [])
            | OnLoad ResultArrayBuffer \<Rightarrow> ([], [])
            | OnLoad ResultNull \<Rightarrow> ([], [])
            | OnError \<Rightarrow> ([], [])))"

section \<open>Application state (App: handleImageSelect)\<close>

record AppState =
  showSplash :: bool
  selectedImage :: "string option"
  isAnalyzing :: bool
  result :: "PlantAnalysisResult option"
  error :: "string option"
  loadingStep :: nat

text \<open>The state setters that \<open>handleImageSelect\<close> calls, in the order it calls them.\<close>

datatype setter =
    SetSelectedImage "string option"
  | SetResult "PlantAnalysisResult option"
  | SetError "string option"
  | SetIsAnalyzing bool

fun apply_setter :: "AppState \<Rightarrow> setter \<Rightarrow> AppState" where
  "apply_setter s (SetSelectedImage v) = s\<lparr>selectedImage := v\<rparr>"
| "apply_setter s (SetResult v) = s\<lparr>result := v\<rparr>"
| "apply_setter s (SetError v) = s\<lparr>error := v\<rparr>"
| "apply_setter s (SetIsAnalyzing v) = s\<lparr>isAnalyzing := v\<rparr>"

definition run_setters :: "setter list \<Rightarrow> AppState \<Rightarrow> AppState" where
  "run_setters us s = foldl apply_setter s us"

text \<open>Lines 44-47: what runs before the \<open>await\<close>.\<close>

definition handleImageSelect_begin :: "string \<Rightarrow> setter list" where
  "handleImageSelect_begin base64Image =
     [SetSelectedImage (Some base64Image), SetResult None, SetError None, SetIsAnalyzing True]"

text \<open>\<open>err.message\<close> of a thrown value.\<close>

fun message :: "thrown \<Rightarrow> string option" where
  "message (Error m) = Some m"
| "message SyntaxError = None"
| "message TypeError = None"
| "message (ServiceFailure m) = Some m"

text \<open>Lines 49-57: what runs once the analysis has settled.\<close>

definition handleImageSelect_settle :: "thrown + PlantAnalysisResult \<Rightarrow> setter list" where
  "handleImageSelect_settle outcome =
     (case outcome of
        Inr analysisData \<Rightarrow> [SetResult (Some analysisData)]
      | Inl err \<Rightarrow> [SetError (Some (js_or (message err) ''Failed to analyze the image. Please try again.''))])
     @ [SetIsAnalyzing False]"

text \<open>
  The whole handler: the state in which the request is in flight, the state after the
  request has settled, and the requests issued.
\<close>

definition handleImageSelect ::
  "string option \<Rightarrow> (GenerateContentRequest \<Rightarrow> service_outcome) \<Rightarrow> (string \<Rightarrow> parse_outcome) \<Rightarrow>
   string \<Rightarrow> AppState \<Rightarrow> AppState \<times> AppState \<times> GenerateContentRequest list" where
  "handleImageSelect processEnvApiKey generateContent JSON_parse base64Image s =
     (let in_flight = run_setters (handleImageSelect_begin base64Image) s;
          (outcome, requests) = analyzePlantImage processEnvApiKey generateContent JSON_parse base64Image
      in (in_flight, run_setters (handleImageSelect_settle outcome) in_flight, requests))"

text \<open>Lines 60-65: \<open>resetApp\<close>, bound to the header and to the two retry buttons.\<close>

definition resetApp :: "AppState \<Rightarrow> AppState" where
  "resetApp s = run_setters [SetSelectedImage None, SetResult None, SetError None] s"

text \<open>
  The handler is asynchronous: what runs before the \<open>await\<close> is one step, what runs
  after the request has settled is a later step, and other handlers run in between. The
  running application is its state together with the images whose requests are still in
  flight, oldest first. \<open>Select\<close> is a call of \<open>handleImageSelect\<close> up to its
  \<open>await\<close>, \<open>Settle i outcome\<close> is the rest of the call whose request is the
  \<open>i\<close>-th in flight, and \<open>Reset\<close> is a call of \<open>resetApp\<close>.
\<close>

datatype app_event = Select string | Settle nat "thrown + PlantAnalysisResult" | Reset

record Running =
  app :: AppState
  pending :: "string list"

fun app_step :: "Running \<Rightarrow> app_event \<Rightarrow> Running" where
  "app_step r (Select base64Image) =
     \<lparr> app = run_setters (handleImageSelect_begin base64Image) (app r),
       pending = pending r @ [base64Image] \<rparr>"
| "app_step r (Settle i outcome) =
     (if i < length (pending r)
      then \<lparr> app = run_setters (handleImageSelect_settle outcome) (app r),
             pending = take i (pending r) @ drop (Suc i) (pending r) \<rparr>
      else r)"
| "app_step r Reset = r\<lparr>app := resetApp (app r)\<rparr>"

definition run_events :: "app_event list \<Rightarrow> Running \<Rightarrow> Running" where
  "run_events es r = foldl app_step r es"


section \<open>The result view (PlantDetails)\<close>

text \<open>
  What the component returns: the view of lines 19-30 with its heading, or the detail
  view of lines 92-275 built from the data.
\<close>

datatype rendered = UncertainView string | DetailView PlantAnalysisResult

definition PlantDetails :: "PlantAnalysisResult \<Rightarrow> rendered" where
  "PlantDetails data =
     (if \<not> identified data then UncertainView ''Identification Uncertain''
      else DetailView data)"

section \<open>The camera (ImageUploader: stopCamera, capturePhoto)\<close>

text \<open>
  The state of the component that the two functions touch. A \<open>MediaStream\<close> handle is
  the list of its tracks, each named by a number; \<open>live_tracks\<close> is the set of tracks
  that have not been stopped, so that \<open>track.stop()\<close> removes a track from it and does
  nothing to a track that is no longer there. \<open>selected\<close> collects the arguments with
  which \<open>onImageSelect\<close> has been called.
\<close>

record CameraState =
  isCameraOpen :: bool
  stream :: "nat list option"
  cameraError :: "string option"
  isFlashing :: bool
  live_tracks :: "nat set"
  selected :: "string list"

record VideoElement =
  videoWidth :: nat
  videoHeight :: nat

text \<open>Lines 134-141.\<close>

definition stopCamera :: "CameraState \<Rightarrow> CameraState" where
  "stopCamera s =
     (case stream s of
        Some tracks \<Rightarrow> s\<lparr>live_tracks := live_tracks s - set tracks, stream := None\<rparr>
      | None \<Rightarrow> s)
     \<lparr>isCameraOpen := False, cameraError := None\<rparr>"

text \<open>
  Lines 143-146 and 163: the click on the capture button. The second component tells
  whether the 150 ms timer was started.
\<close>

definition capturePhoto :: "VideoElement option \<Rightarrow> CameraState \<Rightarrow> CameraState \<times> bool" where
  "capturePhoto videoRef_current s =
     (case videoRef_current of
        None \<Rightarrow> (s, False)
      | Some video \<Rightarrow>
          if videoWidth video > 0 then (s\<lparr>isFlashing := True\<rparr>, True) else (s, False))"

text \<open>
  Lines 147-162: the timer's callback. \<open>videoRef_current\<close> is the video element at that
  moment, \<open>ctx\<close> tells whether \<open>canvas.getContext('2d')\<close> returned a context, and
  \<open>dataUrl\<close> is what \<open>canvas.toDataURL\<close> returns.
\<close>

definition capturePhoto_timeout ::
  "VideoElement option \<Rightarrow> bool \<Rightarrow> string \<Rightarrow> CameraState \<Rightarrow> CameraState" where
  "capturePhoto_timeout videoRef_current ctx dataUrl s =
     (case videoRef_current of
        None \<Rightarrow> s
      | Some video \<Rightarrow>
          if ctx
          then (let s' = stopCamera s
                in s'\<lparr>selected := selected s' @ [dataUrl], isFlashing := False\<rparr>)
          else s\<lparr>isFlashing := False\<rparr>)"

text \<open>
  The live view shows two controls, the close button (\<open>stopCamera\<close>) and the capture
  button (\<open>capturePhoto\<close>); the timer started by the latter fires later.
\<close>

datatype camera_event =
    Cancel
  | CaptureClick "VideoElement option"
  | CaptureTimeout "VideoElement option" bool string

fun camera_step :: "CameraState \<Rightarrow> camera_event \<Rightarrow> CameraState" where
  "camera_step s Cancel = stopCamera s"
| "camera_step s (CaptureClick v) = fst (capturePhoto v s)"
| "camera_step s (CaptureTimeout v ctx dataUrl) = capturePhoto_timeout v ctx dataUrl s"

text \<open>The live state: the camera view is open and holds a stream.\<close>

definition live :: "CameraState \<Rightarrow> bool" where
  "live s = (isCameraOpen s \<and> stream s \<noteq> None \<and> cameraError s = None)"

section \<open>Sample data\<close>

text \<open>
  A response like that of the specification's first end-to-end scenario, a camera in
  its live state with one track, and an application state that still holds an earlier
  result and an earlier error.
\<close>

definition neem :: PlantAnalysisResult where
  "neem = \<lparr> identified = True, commonName = Some ''Neem'',
            botanicalName = Some ''Azadirachta indica'', ayurvedicName = Some ''Nimba'',
            family = Some ''Meliaceae'', shortDescription = None,
            medicinalUses = Some [''Skin care''], preparationMethods = None, dosage = None,
            safetyWarnings = None, ayurvedicProperties = None,
            confidenceScore = 92, safetyProfileScore = 8 \<rparr>"

definition live_camera :: CameraState where
  "live_camera = \<lparr> isCameraOpen = True, stream = Some [0], cameraError = None,
                   isFlashing = True, live_tracks = {0}, selected = [] \<rparr>"



definition silent_service :: "GenerateContentRequest \<Rightarrow> service_outcome" where
  "silent_service request = Responds None"

definition failing_parse :: "string \<Rightarrow> parse_outcome" where
  "failing_parse t = ParseThrows"

section \<open>Properties of the preprocessing\<close>

subsection \<open>Splitting and matching\<close>

lemma split_nocomma: "c \<notin> set s \<Longrightarrow> split c s = [s]"
  by (induction s) auto

lemma split_app: "c \<notin> set xs \<Longrightarrow> split c (xs @ c # ys) = xs # split c ys"
  by (induction xs) auto

lemma re_lit_app: "re_lit xs (xs @ ys) k = k ys"
  by (induction xs) auto

lemma re_lit_Some: "re_lit xs s k = Some r \<Longrightarrow> \<exists>t. s = xs @ t \<and> k t = Some r"
  by (induction xs s k rule: re_lit.induct) (auto split: if_splits)

lemma re_star_Some: "re_star p s k = Some r \<Longrightarrow> \<exists>t. set t \<subseteq> set s \<and> k t = Some r"
proof (induction s)
  case Nil then show ?case by auto
next
  case (Cons c cs)
  show ?case
  proof (cases "p c \<and> re_star p cs k = Some r")
    case True
    with Cons.IH obtain t where "set t \<subseteq> set cs" "k t = Some r" by blast
    then have "set t \<subseteq> set (c # cs) \<and> k t = Some r" by auto
    then show ?thesis by blast
  next
    case False
    with Cons.prems have "k (c # cs) = Some r" by (auto split: if_splits option.splits)
    then show ?thesis by blast
  qed
qed

lemma re_plus_Some: "re_plus p s k = Some r \<Longrightarrow> \<exists>t. set t \<subseteq> set s \<and> k t = Some r"
proof (cases s)
  case Nil then show "re_plus p s k = Some r \<Longrightarrow> ?thesis" by simp
next
  case (Cons c cs)
  assume "re_plus p s k = Some r"
  with Cons have "re_star p cs k = Some r" by (simp split: if_splits)
  from re_star_Some[OF this] obtain t where "set t \<subseteq> set cs" "k t = Some r" by (elim exE conjE)
  with Cons have "set t \<subseteq> set s \<and> k t = Some r" by auto
  then show ?thesis by blast
qed

lemma re_star_stop: "ys = [] \<or> \<not> p (hd ys) \<Longrightarrow> re_star p ys k = k ys"
  by (cases ys) auto

lemma re_star_greedy:
  "\<forall>x\<in>set xs. p x \<Longrightarrow> ys = [] \<or> \<not> p (hd ys) \<Longrightarrow> k ys = Some r \<Longrightarrow> re_star p (xs @ ys) k = Some r"
  by (induction xs) (auto simp: re_star_stop)

lemma re_plus_greedy:
  "xs \<noteq> [] \<Longrightarrow> \<forall>x\<in>set xs. p x \<Longrightarrow> ys = [] \<or> \<not> p (hd ys) \<Longrightarrow> k ys = Some r \<Longrightarrow> re_plus p (xs @ ys) k = Some r"
  by (cases xs) (auto simp: re_star_greedy)

lemma re_star_succeeds:
  "\<forall>x\<in>set xs. p x \<Longrightarrow> k ys \<noteq> None \<Longrightarrow> re_star p (xs @ ys) k \<noteq> None"
proof (induction xs)
  case Nil then show ?case by (cases ys) (auto split: option.splits)
next
  case (Cons x xs) then show ?case by (auto split: option.splits)
qed

lemma re_star_const: "re_star p s (\<lambda>_. Some c) = Some c"
  by (induction s) auto

text \<open>
  The tail \<open>.*,.*\<close> of the pattern succeeds as soon as a comma follows a run without
  line terminators.
\<close>

lemma tail_succeeds:
  assumes "\<forall>x\<in>set xs. is_dot x"
  shows "re_star is_dot (xs @ CHR '','' # ys) (\<lambda>s5. re_lit '','' s5 (\<lambda>s6. re_star is_dot s6 (\<lambda>s7. Some c))) = Some c"
proof -
  let ?k = "\<lambda>s5. re_lit '','' s5 (\<lambda>s6. re_star is_dot s6 (\<lambda>s7. Some c))"
  have "?k (CHR '','' # ys) = Some c" by (simp add: re_star_const)
  then have "re_star is_dot (xs @ CHR '','' # ys) ?k \<noteq> None"
    using assms re_star_succeeds[of xs is_dot ?k "CHR '','' # ys"] by simp
  then obtain r where r: "re_star is_dot (xs @ CHR '','' # ys) ?k = Some r" by blast
  from re_star_Some[OF r] obtain t where t: "?k t = Some r" by (elim exE conjE)
  from re_lit_Some[OF t] obtain t' where "re_star is_dot t' (\<lambda>s7. Some c) = Some r" by (elim exE conjE)
  then have "r = c" by (simp add: re_star_const)
  with r show ?thesis by simp
qed

lemma mime_regex_at_prefixed:
  assumes t: "t \<noteq> []" "\<forall>x\<in>set t. is_alnum x"
    and u: "u \<noteq> []" "\<forall>x\<in>set u. is_subtype_char x"
  shows "mime_regex_at (''data:'' @ t @ ''/'' @ u @ '';base64,'' @ p) = Some (t @ ''/'' @ u)"
proof -
  let ?s4 = "'';base64,'' @ p"
  let ?s3 = "u @ ?s4"
  let ?s1 = "t @ ''/'' @ ?s3"
  let ?c = "take (length ?s1 - length ?s4) ?s1"
  let ?k5 = "\<lambda>s5. re_lit '','' s5 (\<lambda>s6. re_star is_dot s6 (\<lambda>s7. Some ?c))"
  let ?k4 = "\<lambda>s4. re_star is_dot s4 (\<lambda>s5. re_lit '','' s5 (\<lambda>s6. re_star is_dot s6 (\<lambda>s7. Some (take (length ?s1 - length s4) ?s1))))"
  let ?k3 = "\<lambda>s3. re_plus is_subtype_char s3 ?k4"
  let ?k2 = "\<lambda>s2. re_lit ''/'' s2 ?k3"
  have c: "?c = t @ ''/'' @ u" by simp
  have "re_star is_dot ('';base64'' @ CHR '','' # p) ?k5 = Some ?c"
    by (rule tail_succeeds) (simp add: is_dot_def)
  then have k4: "?k4 ?s4 = Some ?c" by simp
  have "\<not> is_subtype_char CHR '';''" by (simp add: is_subtype_char_def is_alnum_def in_range_def)
  then have k3: "?k3 ?s3 = Some ?c"
    using re_plus_greedy[OF u(1) u(2), of ?s4 ?k4 ?c] k4 by simp
  then have k2: "?k2 (''/'' @ ?s3) = Some ?c" by simp
  have "\<not> is_alnum CHR ''/''" by (simp add: is_alnum_def in_range_def)
  then have "re_plus is_alnum ?s1 ?k2 = Some ?c"
    using re_plus_greedy[OF t(1) t(2), of "''/'' @ ?s3" ?k2 ?c] k2 by simp
  then show ?thesis unfolding mime_regex_at_def by (simp add: c)
qed

lemma mime_regex_at_comma:
  assumes "mime_regex_at s = Some r" shows "CHR '','' \<in> set s"
proof -
  let ?k6 = "\<lambda>s1 s4 s6. re_star is_dot s6 (\<lambda>s7. Some (take (length s1 - length s4) s1))"
  let ?k5 = "\<lambda>s1 s4 s5. re_lit '','' s5 (?k6 s1 s4)"
  let ?k4 = "\<lambda>s1 s4. re_star is_dot s4 (?k5 s1 s4)"
  let ?k3 = "\<lambda>s1 s3. re_plus is_subtype_char s3 (?k4 s1)"
  let ?k2 = "\<lambda>s1 s2. re_lit ''/'' s2 (?k3 s1)"
  let ?k1 = "\<lambda>s1. re_plus is_alnum s1 (?k2 s1)"
  from assms have 0: "re_lit ''data:'' s ?k1 = Some r"
    unfolding mime_regex_at_def .
  from re_lit_Some[OF 0] obtain s1 where s1: "s = ''data:'' @ s1" and 1: "?k1 s1 = Some r"
    by (elim exE conjE)
  from re_plus_Some[OF 1] obtain s2 where s2: "set s2 \<subseteq> set s1" and 2: "?k2 s1 s2 = Some r"
    by (elim exE conjE)
  from re_lit_Some[OF 2] obtain s3 where s3: "s2 = ''/'' @ s3" and 3: "?k3 s1 s3 = Some r"
    by (elim exE conjE)
  from re_plus_Some[OF 3] obtain s4 where s4: "set s4 \<subseteq> set s3" and 4: "?k4 s1 s4 = Some r"
    by (elim exE conjE)
  from re_star_Some[OF 4] obtain s5 where s5: "set s5 \<subseteq> set s4" and 5: "?k5 s1 s4 s5 = Some r"
    by (elim exE conjE)
  from re_lit_Some[OF 5] obtain s6 where "s5 = '','' @ s6"
    by (elim exE conjE)
  then have "CHR '','' \<in> set s5" by simp
  with s5 s4 have "CHR '','' \<in> set s3" by blast
  with s3 s2 have "CHR '','' \<in> set s1" by auto
  with s1 show ?thesis by simp
qed

lemma regex_search_None: "(\<And>t. set t \<subseteq> set s \<Longrightarrow> m t = None) \<Longrightarrow> regex_search m s = None"
proof (induction s)
  case Nil then show ?case by simp
next
  case (Cons c cs)
  have "m (c # cs) = None" using Cons.prems by simp
  moreover have "regex_search m cs = None"
    by (rule Cons.IH) (rule Cons.prems, auto)
  ultimately show ?case by simp
qed

lemma regex_search_no_comma:
  assumes "CHR '','' \<notin> set s" shows "regex_search mime_regex_at s = None"
proof (rule regex_search_None)
  fix t assume "set t \<subseteq> set s"
  with assms have "CHR '','' \<notin> set t" by auto
  then show "mime_regex_at t = None" using mime_regex_at_comma by (cases "mime_regex_at t") auto
qed

subsection \<open>The forwarded payload and media type\<close>

lemma is_alnum_not_comma: "is_alnum c \<Longrightarrow> c \<noteq> CHR '',''"
  by (auto simp: is_alnum_def in_range_def)

lemma is_subtype_char_not_comma: "is_subtype_char c \<Longrightarrow> c \<noteq> CHR '',''"
  by (auto simp: is_subtype_char_def dest: is_alnum_not_comma)

lemma split_not_Nil: "split c s \<noteq> []"
  by (induction s) (auto split: list.splits)

lemma cleanBase64_no_comma: "CHR '','' \<notin> set s \<Longrightarrow> cleanBase64 s = s"
  by (simp add: cleanBase64_def split_nocomma at_index_def js_or_def)

lemma cleanBase64_prefixed:
  assumes "CHR '','' \<notin> set pre" "CHR '','' \<notin> set payload"
  shows "cleanBase64 (pre @ CHR '','' # payload) =
           (if payload = [] then pre @ CHR '','' # payload else payload)"
  using assms
  by (simp add: cleanBase64_def split_app split_nocomma at_index_def js_or_def)

lemma mimeType_no_comma: "CHR '','' \<notin> set s \<Longrightarrow> mimeType s = ''image/jpeg''"
  by (simp add: mimeType_def regex_search_no_comma js_or_def)

lemma mimeType_prefixed:
  assumes "t \<noteq> []" "\<forall>x\<in>set t. is_alnum x" "u \<noteq> []" "\<forall>x\<in>set u. is_subtype_char x"
  shows "mimeType (''data:'' @ t @ ''/'' @ u @ '';base64,'' @ p) = t @ ''/'' @ u"
proof -
  have "mime_regex_at (''data:'' @ t @ ''/'' @ u @ '';base64,'' @ p) = Some (t @ ''/'' @ u)"
    using assms by (rule mime_regex_at_prefixed)
  then have "regex_search mime_regex_at (''data:'' @ t @ ''/'' @ u @ '';base64,'' @ p)
               = Some (t @ ''/'' @ u)"
    by simp
  then show ?thesis by (simp add: mimeType_def js_or_def)
qed

lemma prefix_no_comma:
  assumes "\<forall>x\<in>set t. is_alnum x" "\<forall>x\<in>set u. is_subtype_char x"
  shows "CHR '','' \<notin> set (''data:'' @ t @ ''/'' @ u @ '';base64'')"
  using assms is_alnum_not_comma is_subtype_char_not_comma by auto

lemma inline_data_build_request: "inline_data (build_request s) = cleanBase64 s"
  by (simp add: build_request_def)

lemma inline_mimeType_build_request: "inline_mimeType (build_request s) = mimeType s"
  by (simp add: build_request_def)

lemma cleanBase64_data_url:
  assumes "\<forall>x\<in>set t. is_alnum x" "\<forall>x\<in>set u. is_subtype_char x" "CHR '','' \<notin> set p"
  shows "cleanBase64 (''data:'' @ t @ ''/'' @ u @ '';base64,'' @ p) =
           (if p = [] then ''data:'' @ t @ ''/'' @ u @ '';base64,'' else p)"
proof -
  have "cleanBase64 ((''data:'' @ t @ ''/'' @ u @ '';base64'') @ CHR '','' # p) =
          (if p = [] then (''data:'' @ t @ ''/'' @ u @ '';base64'') @ CHR '','' # p else p)"
    using prefix_no_comma [OF assms(1,2)] assms(3) by (rule cleanBase64_prefixed)
  then show ?thesis by simp
qed

text \<open>
  When the payload is not empty the prefix is removed. For an input
  \<open>data:<type>/<subtype>;base64,<payload>\<close> whose type is a non-empty run of
  \<open>[a-zA-Z0-9]\<close>, whose subtype is a non-empty run of \<open>[a-zA-Z0-9-.+]\<close> and whose
  payload is not empty and has no comma, the request built carries exactly the payload
  as image data and \<open><type>/<subtype>\<close> as media type. For an input without a comma it
  carries the input unchanged and the media type \<open>image/jpeg\<close>.
\<close>

lemma preprocess_prefixed_or_raw:
  "(t \<noteq> [] \<and> (\<forall>x\<in>set t. is_alnum x) \<and> u \<noteq> [] \<and> (\<forall>x\<in>set u. is_subtype_char x)
      \<and> payload \<noteq> [] \<and> CHR '','' \<notin> set payload
    \<longrightarrow> inline_data (build_request (''data:'' @ t @ ''/'' @ u @ '';base64,'' @ payload)) = payload
      \<and> inline_mimeType (build_request (''data:'' @ t @ ''/'' @ u @ '';base64,'' @ payload))
          = t @ ''/'' @ u)
   \<and> (CHR '','' \<notin> set raw
    \<longrightarrow> inline_data (build_request raw) = raw
      \<and> inline_mimeType (build_request raw) = ''image/jpeg'')"
proof (intro conjI impI)
  assume a: "t \<noteq> [] \<and> (\<forall>x\<in>set t. is_alnum x) \<and> u \<noteq> [] \<and> (\<forall>x\<in>set u. is_subtype_char x)
      \<and> payload \<noteq> [] \<and> CHR '','' \<notin> set payload"
  then have t: "t \<noteq> []" "\<forall>x\<in>set t. is_alnum x" and u: "u \<noteq> []" "\<forall>x\<in>set u. is_subtype_char x"
    and p: "payload \<noteq> []" "CHR '','' \<notin> set payload"
    by blast+
  from cleanBase64_data_url [OF t(2) u(2) p(2)] p(1)
  show "inline_data (build_request (''data:'' @ t @ ''/'' @ u @ '';base64,'' @ payload)) = payload"
    by (simp only: inline_data_build_request if_False)
  from mimeType_prefixed [OF t u]
  show "inline_mimeType (build_request (''data:'' @ t @ ''/'' @ u @ '';base64,'' @ payload))
          = t @ ''/'' @ u"
    by (simp only: inline_mimeType_build_request)
next
  assume r: "CHR '','' \<notin> set raw"
  show "inline_data (build_request raw) = raw"
    by (simp only: inline_data_build_request cleanBase64_no_comma [OF r])
next
  assume r: "CHR '','' \<notin> set raw"
  show "inline_mimeType (build_request raw) = ''image/jpeg''"
    by (simp only: inline_mimeType_build_request mimeType_no_comma [OF r])
qed

lemma analyzePlantImage_requests:
  "truthy key \<Longrightarrow> snd (analyzePlantImage key gen parse img) = [build_request img]"
  by (simp add: analyzePlantImage_def)

lemma cleanBase64_empty_payload:
  assumes "CHR '','' \<notin> set pre"
  shows "cleanBase64 (pre @ '','') = pre @ '',''"
proof -
  have e: "CHR '','' \<notin> set []" by simp
  from cleanBase64_prefixed [OF assms e] show ?thesis by simp
qed

lemma mimeType_png: "mimeType ''data:image/png;base64,'' = ''image/png''"
proof -
  have a: "''image'' \<noteq> []" "\<forall>x\<in>set ''image''. is_alnum x"
    by (simp_all add: is_alnum_def in_range_def)
  have b: "''png'' \<noteq> []" "\<forall>x\<in>set ''png''. is_subtype_char x"
    by (simp_all add: is_subtype_char_def is_alnum_def in_range_def)
  from mimeType_prefixed [OF a b, of "[]"] show ?thesis by simp
qed

lemma cleanBase64_png: "cleanBase64 ''data:image/png;base64,'' = ''data:image/png;base64,''"
  by (simp add: cleanBase64_def js_or_def at_index_def)

text \<open>
  Claim C2. The claim asks that for every input \<open>data:<type>/<subtype>;base64,<payload>\<close>
  the request carry exactly the payload. The code does not do so when the payload is
  empty: with the API key present, the one request issued for the input
  \<open>data:image/png;base64,\<close> carries the whole input, prefix included, as image data.
\<close>

theorem analyze_keeps_prefix_on_empty_payload:
  "snd (analyzePlantImage (Some ''key'') gen parse ''data:image/png;base64,'')
     = [\<lparr> model = ''gemini-2.5-flash'', inline_mimeType = ''image/png'',
           inline_data = ''data:image/png;base64,'', responseMimeType = ''application/json'' \<rparr>]"
proof -
  have k: "truthy (Some ''key'')" by (simp add: truthy_def)
  show ?thesis
    unfolding analyzePlantImage_requests [OF k] build_request_def
    by (simp only: mimeType_png cleanBase64_png)
qed

lemma mimeType_x_y: "mimeType ''data:x_y/png;base64,'' = ''image/jpeg''"
  by (simp add: mimeType_def js_or_def mime_regex_at_def is_alnum_def in_range_def)

lemma cleanBase64_x_y: "cleanBase64 ''data:x_y/png;base64,'' = ''data:x_y/png;base64,''"
  by (simp add: cleanBase64_def js_or_def at_index_def)

text \<open>
  Claim C10 as stated fails for a type outside \<open>[a-zA-Z0-9]+\<close>: for the input
  \<open>data:x_y/png;base64,\<close> the request carries the media type \<open>image/jpeg\<close>, which is
  not inferred from the prefix.
\<close>

theorem analyze_media_type_not_inferred_counterexample:
  "snd (analyzePlantImage (Some ''key'') silent_service failing_parse ''data:x_y/png;base64,'')
     = [\<lparr> model = ''gemini-2.5-flash'', inline_mimeType = ''image/jpeg'',
           inline_data = ''data:x_y/png;base64,'', responseMimeType = ''application/json'' \<rparr>]"
proof -
  have k: "truthy (Some ''key'')" by (simp add: truthy_def)
  show ?thesis
    unfolding analyzePlantImage_requests [OF k] build_request_def
    by (simp only: mimeType_x_y cleanBase64_x_y)
qed

text \<open>
  Claim C10, as the code has it. With the API key present and an input
  \<open>data:<type>/<subtype>;base64,\<close> whose type and subtype hold no comma, so that the
  payload after the comma is empty, \<open>analyzePlantImage\<close> issues one request, and that
  request carries the whole input, prefix included, as image data. Its media type is
  \<open><type>/<subtype>\<close> when the type is a non-empty run of \<open>[a-zA-Z0-9]\<close> and the
  subtype a non-empty run of \<open>[a-zA-Z0-9-.+]\<close>.
\<close>

theorem analyze_empty_payload:
  assumes "truthy key" "CHR '','' \<notin> set t" "CHR '','' \<notin> set u"
  shows "\<exists>request.
           snd (analyzePlantImage key gen parse (''data:'' @ t @ ''/'' @ u @ '';base64,'')) = [request]
           \<and> inline_data request = ''data:'' @ t @ ''/'' @ u @ '';base64,''
           \<and> (t \<noteq> [] \<and> (\<forall>x\<in>set t. is_alnum x) \<and> u \<noteq> [] \<and> (\<forall>x\<in>set u. is_subtype_char x)
                \<longrightarrow> inline_mimeType request = t @ ''/'' @ u)"
proof (intro exI conjI impI)
  let ?img = "''data:'' @ t @ ''/'' @ u @ '';base64,''"
  show "snd (analyzePlantImage key gen parse ?img) = [build_request ?img]"
    using assms(1) by (rule analyzePlantImage_requests)
  have "CHR '','' \<notin> set (''data:'' @ t @ ''/'' @ u @ '';base64'')"
    using assms(2,3) by simp
  from cleanBase64_empty_payload [OF this]
  show "inline_data (build_request ?img) = ?img"
    by (simp add: inline_data_build_request)
  assume "t \<noteq> [] \<and> (\<forall>x\<in>set t. is_alnum x) \<and> u \<noteq> [] \<and> (\<forall>x\<in>set u. is_subtype_char x)"
  then have c: "t \<noteq> []" "\<forall>x\<in>set t. is_alnum x" "u \<noteq> []" "\<forall>x\<in>set u. is_subtype_char x"
    by blast+
  from mimeType_prefixed [OF c, of "[]"]
  show "inline_mimeType (build_request ?img) = t @ ''/'' @ u"
    by (simp add: inline_mimeType_build_request)
qed

theorem analyze_empty_payload_witness:
  "\<exists>request.
     snd (analyzePlantImage (Some ''key'') silent_service failing_parse
            (''data:'' @ ''image'' @ ''/'' @ ''png'' @ '';base64,'')) = [request]
     \<and> inline_data request = ''data:'' @ ''image'' @ ''/'' @ ''png'' @ '';base64,''
     \<and> inline_mimeType request = ''image'' @ ''/'' @ ''png''"
proof -
  have k: "truthy (Some ''key'')" by (simp add: truthy_def)
  have t: "CHR '','' \<notin> set ''image''" and u: "CHR '','' \<notin> set ''png''" by simp_all
  have c: "''image'' \<noteq> [] \<and> (\<forall>x\<in>set ''image''. is_alnum x) \<and> ''png'' \<noteq> []
           \<and> (\<forall>x\<in>set ''png''. is_subtype_char x)"
    by (simp add: is_subtype_char_def is_alnum_def in_range_def)
  from analyze_empty_payload [OF k t u, of silent_service failing_parse]
  obtain request where
    1: "snd (analyzePlantImage (Some ''key'') silent_service failing_parse
            (''data:'' @ ''image'' @ ''/'' @ ''png'' @ '';base64,'')) = [request]"
    and 2: "inline_data request = ''data:'' @ ''image'' @ ''/'' @ ''png'' @ '';base64,''"
    and 3: "''image'' \<noteq> [] \<and> (\<forall>x\<in>set ''image''. is_alnum x) \<and> ''png'' \<noteq> []
           \<and> (\<forall>x\<in>set ''png''. is_subtype_char x)
           \<longrightarrow> inline_mimeType request = ''image'' @ ''/'' @ ''png''"
    by (elim exE conjE)
  from 3 c have 4: "inline_mimeType request = ''image'' @ ''/'' @ ''png''" by (rule mp)
  from 1 2 4 show ?thesis by (intro exI conjI)
qed

section \<open>Properties of the analysis call\<close>

lemma safety_check_identified:
  "identified (safety_check d) = (identified d \<and> truthy (commonName d))"
  by (auto simp: safety_check_def)

lemma safety_check_frame: "safety_check d = d\<lparr>identified := identified (safety_check d)\<rparr>"
  by (simp add: safety_check_def)

lemma truthy_iff: "truthy x = (\<exists>n. x = Some n \<and> n \<noteq> [])"
  by (cases x) (simp_all add: truthy_def)

lemma not_truthy_iff: "(\<not> truthy x) = (x = None \<or> x = Some [])"
  by (cases x) (simp_all add: truthy_def)

lemma analyze_try_Inr:
  "analyze_try gen parse req = Inr r \<longleftrightarrow>
     (\<exists>text d. gen req = Responds (Some text) \<and> text \<noteq> [] \<and> parse text = ParsedObject d
        \<and> r = safety_check d)"
  unfolding analyze_try_def
  by (cases "gen req") (auto split: option.splits parse_outcome.splits)

lemma analyze_try_Inl:
  "(\<exists>c. analyze_try gen parse req = Inl c) \<longleftrightarrow>
     ((\<exists>e. gen req = Rejects e) \<or> gen req = Responds None \<or> gen req = Responds (Some [])
      \<or> (\<exists>text. gen req = Responds (Some text) \<and> text \<noteq> []
            \<and> (parse text = ParseThrows \<or> parse text = ParsedNull)))"
  unfolding analyze_try_def
  by (cases "gen req") (auto split: option.splits parse_outcome.splits)

lemma analyzePlantImage_Inr:
  "fst (analyzePlantImage key gen parse img) = Inr r \<longleftrightarrow>
     truthy key \<and> analyze_try gen parse (build_request img) = Inr r"
  unfolding analyzePlantImage_def by (auto split: sum.splits)

lemma analyzePlantImage_Inl:
  "truthy key \<Longrightarrow> fst (analyzePlantImage key gen parse img) = Inl e \<longleftrightarrow>
     e = Error ''Failed to process the image. Please try again.'' \<and>
     (\<exists>c. analyze_try gen parse (build_request img) = Inl c)"
  unfolding analyzePlantImage_def by (auto split: sum.splits)

text \<open>
  Claim C1. When the service's response parses to an object whose \<open>identified\<close> is true
  and whose \<open>commonName\<close> is absent or empty, \<open>analyzePlantImage\<close> returns a result
  whose \<open>identified\<close> is false. Hence every result it returns with \<open>identified\<close> true
  has a \<open>commonName\<close> that is present and not empty.
\<close>

theorem analyze_identified_requires_commonName:
  "(truthy key \<and> gen (build_request img) = Responds (Some text) \<and> text \<noteq> []
      \<and> parse text = ParsedObject d \<and> identified d
      \<and> (commonName d = None \<or> commonName d = Some [])
    \<longrightarrow> (\<exists>r. fst (analyzePlantImage key gen parse img) = Inr r \<and> \<not> identified r))
   \<and> (fst (analyzePlantImage key gen parse img) = Inr r'
    \<longrightarrow> (identified r' \<longrightarrow> (\<exists>n. commonName r' = Some n \<and> n \<noteq> [])))"
proof (intro conjI impI)
  assume a: "truthy key \<and> gen (build_request img) = Responds (Some text) \<and> text \<noteq> []
      \<and> parse text = ParsedObject d \<and> identified d
      \<and> (commonName d = None \<or> commonName d = Some [])"
  then have "analyze_try gen parse (build_request img) = Inr (safety_check d)"
    by (subst analyze_try_Inr) blast
  with a have "fst (analyzePlantImage key gen parse img) = Inr (safety_check d)"
    by (simp add: analyzePlantImage_Inr)
  moreover from a have "\<not> identified (safety_check d)"
    by (simp add: safety_check_identified not_truthy_iff)
  ultimately show "\<exists>r. fst (analyzePlantImage key gen parse img) = Inr r \<and> \<not> identified r"
    by blast
next
  assume r: "fst (analyzePlantImage key gen parse img) = Inr r'" and i: "identified r'"
  from r obtain d' where d': "r' = safety_check d'"
    by (auto simp: analyzePlantImage_Inr analyze_try_Inr)
  with i have "truthy (commonName d')" "identified d'" by (simp_all add: safety_check_identified)
  with d' have "truthy (commonName r')" by (simp add: safety_check_def)
  then show "\<exists>n. commonName r' = Some n \<and> n \<noteq> []" by (simp add: truthy_iff)
qed

theorem analyze_identified_requires_commonName_witness:
  "(\<exists>r. fst (analyzePlantImage (Some ''key'') (\<lambda>q. Responds (Some ''{}''))
            (\<lambda>t. ParsedObject (neem\<lparr>commonName := None\<rparr>)) ''AAAA'') = Inr r \<and> \<not> identified r)
   \<and> fst (analyzePlantImage (Some ''key'') (\<lambda>q. Responds (Some ''{}''))
            (\<lambda>t. ParsedObject neem) ''AAAA'') = Inr neem
   \<and> identified neem \<and> (\<exists>n. commonName neem = Some n \<and> n \<noteq> [])"
proof -
  have k: "truthy (Some ''key'')" by (simp add: truthy_def)
  have n: "identified (neem\<lparr>commonName := None\<rparr>)" "commonName (neem\<lparr>commonName := None\<rparr>) = None"
    by (simp_all add: neem_def)
  have r: "fst (analyzePlantImage (Some ''key'') (\<lambda>q. Responds (Some ''{}''))
            (\<lambda>t. ParsedObject neem) ''AAAA'') = Inr neem"
    by (simp add: analyzePlantImage_def analyze_try_def truthy_def safety_check_def neem_def)
  have i: "identified neem" by (simp add: neem_def)
  from analyze_identified_requires_commonName
         [of "Some ''key''" "\<lambda>q. Responds (Some ''{}'')" "''AAAA''" "''{}''"
             "\<lambda>t. ParsedObject (neem\<lparr>commonName := None\<rparr>)" "neem\<lparr>commonName := None\<rparr>"]
       k n
  have 1: "\<exists>r. fst (analyzePlantImage (Some ''key'') (\<lambda>q. Responds (Some ''{}''))
            (\<lambda>t. ParsedObject (neem\<lparr>commonName := None\<rparr>)) ''AAAA'') = Inr r \<and> \<not> identified r"
    by simp
  from analyze_identified_requires_commonName
         [of "Some ''key''" "\<lambda>q. Responds (Some ''{}'')" "''AAAA''" "''{}''"
             "\<lambda>t. ParsedObject neem" neem neem] r i
  have 2: "\<exists>n. commonName neem = Some n \<and> n \<noteq> []" by simp
  from 1 2 r i show ?thesis by simp
qed

text \<open>
  Claim C4. When the API key is absent (undefined or empty), \<open>analyzePlantImage\<close> fails
  with the message that begins \<open>API Key is missing\<close>, and the list of requests issued to
  the external service is empty.
\<close>

theorem analyze_missing_key:
  assumes "key = None \<or> key = Some []"
  shows "analyzePlantImage key gen parse img =
           (Inl (Error ''API Key is missing. Please configure the environment.''), [])"
  using assms unfolding analyzePlantImage_def by (auto simp: truthy_def)

theorem analyze_missing_key_witness:
  "analyzePlantImage None (\<lambda>q. Responds (Some ''{}'')) (\<lambda>t. ParsedObject neem) ''AAAA'' =
     (Inl (Error ''API Key is missing. Please configure the environment.''), [])
   \<and> analyzePlantImage (Some []) (\<lambda>q. Responds (Some ''{}'')) (\<lambda>t. ParsedObject neem) ''AAAA'' =
     (Inl (Error ''API Key is missing. Please configure the environment.''), [])"
proof -
  have 1: "(None :: string option) = None \<or> (None :: string option) = Some []" by simp
  have 2: "Some [] = (None :: string option) \<or> Some [] = Some ([] :: string)" by simp
  from analyze_missing_key [OF 1] analyze_missing_key [OF 2] show ?thesis by (rule conjI)
qed

text \<open>
  Claim C5. With the API key present, every failure during or after the external call (the
  service rejects, the response text is absent or empty, or the text does not parse to an
  object) makes \<open>analyzePlantImage\<close> fail with the one message
  \<open>Failed to process the image. Please try again.\<close>; no other error leaves the function,
  and a result is returned only when none of these failures occurred.
\<close>

theorem analyze_failure_uniform:
  assumes "truthy key"
  shows "(((\<exists>e. gen (build_request img) = Rejects e)
           \<or> gen (build_request img) = Responds None
           \<or> gen (build_request img) = Responds (Some [])
           \<or> (\<exists>text. gen (build_request img) = Responds (Some text) \<and> text \<noteq> []
                 \<and> (parse text = ParseThrows \<or> parse text = ParsedNull)))
          \<longrightarrow> fst (analyzePlantImage key gen parse img) =
                Inl (Error ''Failed to process the image. Please try again.''))
       \<and> (\<forall>e. fst (analyzePlantImage key gen parse img) = Inl e
               \<longrightarrow> e = Error ''Failed to process the image. Please try again.'')
       \<and> (\<forall>r. fst (analyzePlantImage key gen parse img) = Inr r
               \<longrightarrow> (\<exists>text d. gen (build_request img) = Responds (Some text) \<and> text \<noteq> []
                      \<and> parse text = ParsedObject d))"
proof (intro conjI impI allI)
  assume "(\<exists>e. gen (build_request img) = Rejects e)
           \<or> gen (build_request img) = Responds None
           \<or> gen (build_request img) = Responds (Some [])
           \<or> (\<exists>text. gen (build_request img) = Responds (Some text) \<and> text \<noteq> []
                 \<and> (parse text = ParseThrows \<or> parse text = ParsedNull))"
  then have "\<exists>c. analyze_try gen parse (build_request img) = Inl c"
    by (simp only: analyze_try_Inl)
  with assms show "fst (analyzePlantImage key gen parse img) =
                Inl (Error ''Failed to process the image. Please try again.'')"
    by (simp add: analyzePlantImage_Inl)
next
  fix e assume "fst (analyzePlantImage key gen parse img) = Inl e"
  with assms show "e = Error ''Failed to process the image. Please try again.''"
    by (simp add: analyzePlantImage_Inl)
next
  fix r assume "fst (analyzePlantImage key gen parse img) = Inr r"
  then show "\<exists>text d. gen (build_request img) = Responds (Some text) \<and> text \<noteq> []
                      \<and> parse text = ParsedObject d"
    by (auto simp: analyzePlantImage_Inr analyze_try_Inr)
qed

theorem analyze_failure_uniform_witness:
  "fst (analyzePlantImage (Some ''key'') (\<lambda>q. Rejects (ServiceFailure ''503'')) (\<lambda>t. ParsedObject neem) ''AAAA'')
     = Inl (Error ''Failed to process the image. Please try again.'')
   \<and> fst (analyzePlantImage (Some ''key'') (\<lambda>q. Responds None) (\<lambda>t. ParsedObject neem) ''AAAA'')
     = Inl (Error ''Failed to process the image. Please try again.'')
   \<and> fst (analyzePlantImage (Some ''key'') (\<lambda>q. Responds (Some ''<html>'')) (\<lambda>t. ParseThrows) ''AAAA'')
     = Inl (Error ''Failed to process the image. Please try again.'')"
proof -
  have k: "truthy (Some ''key'')" by (simp add: truthy_def)
  have 1: "fst (analyzePlantImage (Some ''key'') (\<lambda>q. Rejects (ServiceFailure ''503'')) (\<lambda>t. ParsedObject neem) ''AAAA'')
     = Inl (Error ''Failed to process the image. Please try again.'')"
    by (rule analyze_failure_uniform [OF k, THEN conjunct1, THEN mp]) simp
  have 2: "fst (analyzePlantImage (Some ''key'') (\<lambda>q. Responds None) (\<lambda>t. ParsedObject neem) ''AAAA'')
     = Inl (Error ''Failed to process the image. Please try again.'')"
    by (rule analyze_failure_uniform [OF k, THEN conjunct1, THEN mp]) simp
  have 3: "fst (analyzePlantImage (Some ''key'') (\<lambda>q. Responds (Some ''<html>'')) (\<lambda>t. ParseThrows) ''AAAA'')
     = Inl (Error ''Failed to process the image. Please try again.'')"
    by (rule analyze_failure_uniform [OF k, THEN conjunct1, THEN mp]) simp
  from 1 2 3 show ?thesis by (intro conjI)
qed

text \<open>
  Claim C7. The safety check is the only change made to a parsed response: the result
  that \<open>analyzePlantImage\<close> returns agrees with the parsed object on every field other
  than \<open>identified\<close>, and on \<open>identified\<close> too unless the parsed object has
  \<open>identified\<close> true with \<open>commonName\<close> absent or empty.
\<close>

theorem analyze_frame:
  assumes "fst (analyzePlantImage key gen parse img) = Inr r"
  shows "\<exists>text d. gen (build_request img) = Responds (Some text) \<and> parse text = ParsedObject d
           \<and> commonName r = commonName d \<and> botanicalName r = botanicalName d
           \<and> ayurvedicName r = ayurvedicName d \<and> family r = family d
           \<and> shortDescription r = shortDescription d \<and> medicinalUses r = medicinalUses d
           \<and> preparationMethods r = preparationMethods d \<and> dosage r = dosage d
           \<and> safetyWarnings r = safetyWarnings d
           \<and> ayurvedicProperties r = ayurvedicProperties d
           \<and> confidenceScore r = confidenceScore d
           \<and> safetyProfileScore r = safetyProfileScore d
           \<and> r = d\<lparr>identified := identified r\<rparr>
           \<and> (\<not> (identified d \<and> (commonName d = None \<or> commonName d = Some []))
                \<longrightarrow> r = d)"
proof -
  from assms obtain tx d where g: "gen (build_request img) = Responds (Some tx)"
    and p: "parse tx = ParsedObject d" and r: "r = safety_check d"
    by (auto simp: analyzePlantImage_Inr analyze_try_Inr)
  show ?thesis
  proof (intro exI conjI)
    show "gen (build_request img) = Responds (Some tx)" by (rule g)
    show "parse tx = ParsedObject d" by (rule p)
    show "r = d\<lparr>identified := identified r\<rparr>" unfolding r by (rule safety_check_frame)
    show "\<not> (identified d \<and> (commonName d = None \<or> commonName d = Some [])) \<longrightarrow> r = d"
      unfolding r by (simp add: safety_check_def not_truthy_iff)
  qed (simp_all add: r safety_check_def)
qed

theorem analyze_frame_witness:
  "\<exists>text d. (\<lambda>q. Responds (Some ''{}'')) (build_request ''AAAA'') = Responds (Some text)
       \<and> (\<lambda>t. ParsedObject (neem\<lparr>commonName := None\<rparr>)) text = ParsedObject d
       \<and> botanicalName (neem\<lparr>commonName := None, identified := False\<rparr>) = botanicalName d
       \<and> confidenceScore (neem\<lparr>commonName := None, identified := False\<rparr>) = confidenceScore d"
proof -
  have r: "fst (analyzePlantImage (Some ''key'') (\<lambda>q. Responds (Some ''{}''))
            (\<lambda>t. ParsedObject (neem\<lparr>commonName := None\<rparr>)) ''AAAA'')
           = Inr (neem\<lparr>commonName := None, identified := False\<rparr>)"
    by (simp add: analyzePlantImage_def analyze_try_def truthy_def safety_check_def neem_def)
  from analyze_frame [OF r] obtain tx d where
    "(\<lambda>q. Responds (Some ''{}'')) (build_request ''AAAA'') = Responds (Some tx)"
    "(\<lambda>t. ParsedObject (neem\<lparr>commonName := None\<rparr>)) tx = ParsedObject d"
    "botanicalName (neem\<lparr>commonName := None, identified := False\<rparr>) = botanicalName d"
    "confidenceScore (neem\<lparr>commonName := None, identified := False\<rparr>) = confidenceScore d"
    by (elim exE conjE)
  then show ?thesis by (intro exI conjI)
qed

section \<open>Properties of the file intake\<close>

text \<open>
  Claim C3, as the code has it. A file whose type is in the allow-list and whose size
  does not exceed the maximum raises no validation message, and \<open>onImageSelect\<close> is
  called exactly once, with the result of the read, when the read ends in a \<open>load\<close>
  event with a non-empty string; when the read ends otherwise it is not called. A file
  with an unsupported type or a size above the maximum raises exactly one validation
  message and \<open>onImageSelect\<close> is not called.
\<close>

theorem processFile_intake:
  "(file_type file \<in> set SUPPORTED_IMAGE_TYPES \<and> file_size file \<le> MAX_IMAGE_SIZE_MB * 1024 * 1024
      \<longrightarrow> fst (processFile SUPPORTED_IMAGE_TYPES MAX_IMAGE_SIZE_MB file event) = []
        \<and> (\<forall>r. event = OnLoad (ResultString r) \<and> r \<noteq> []
               \<longrightarrow> snd (processFile SUPPORTED_IMAGE_TYPES MAX_IMAGE_SIZE_MB file event) = [r])
        \<and> ((\<forall>r. event = OnLoad (ResultString r) \<longrightarrow> r = [])
               \<longrightarrow> snd (processFile SUPPORTED_IMAGE_TYPES MAX_IMAGE_SIZE_MB file event) = []))
   \<and> (file_type file \<notin> set SUPPORTED_IMAGE_TYPES \<or> file_size file > MAX_IMAGE_SIZE_MB * 1024 * 1024
      \<longrightarrow> snd (processFile SUPPORTED_IMAGE_TYPES MAX_IMAGE_SIZE_MB file event) = []
        \<and> (fst (processFile SUPPORTED_IMAGE_TYPES MAX_IMAGE_SIZE_MB file event)
              = [''Please upload a valid image (JPEG, PNG, WebP).'']
            \<or> fst (processFile SUPPORTED_IMAGE_TYPES MAX_IMAGE_SIZE_MB file event)
              = [''Image size should be less than '' @ string_of_nat MAX_IMAGE_SIZE_MB @ ''MB.'']))"
  unfolding processFile_def
  by (cases event) (auto split: reader_result.splits)

theorem processFile_intake_witness:
  "snd (processFile [''image/jpeg'', ''image/png'', ''image/webp''] 10
          \<lparr>file_type = ''image/jpeg'', file_size = 2097152\<rparr>
          (OnLoad (ResultString ''data:image/jpeg;base64,AAAA''))) = [''data:image/jpeg;base64,AAAA'']
   \<and> snd (processFile [''image/jpeg'', ''image/png'', ''image/webp''] 10
          \<lparr>file_type = ''image/gif'', file_size = 2097152\<rparr>
          (OnLoad (ResultString ''data:image/gif;base64,AAAA''))) = []"
proof -
  let ?S = "[''image/jpeg'', ''image/png'', ''image/webp'']"
  let ?ok = "\<lparr>file_type = ''image/jpeg'', file_size = 2097152\<rparr>"
  let ?bad = "\<lparr>file_type = ''image/gif'', file_size = 2097152\<rparr>"
  have a: "file_type ?ok \<in> set ?S \<and> file_size ?ok \<le> 10 * 1024 * 1024" by simp
  have b: "file_type ?bad \<notin> set ?S \<or> file_size ?bad > 10 * 1024 * 1024" by simp
  have c: "OnLoad (ResultString ''data:image/jpeg;base64,AAAA'') = OnLoad (ResultString ''data:image/jpeg;base64,AAAA'')
           \<and> ''data:image/jpeg;base64,AAAA'' \<noteq> []" by simp
  note 1 = processFile_intake [of ?ok ?S 10 "OnLoad (ResultString ''data:image/jpeg;base64,AAAA'')",
             THEN conjunct1, THEN mp, OF a, THEN conjunct2, THEN conjunct1, THEN spec, THEN mp, OF c]
  note 2 = processFile_intake [of ?bad ?S 10 "OnLoad (ResultString ''data:image/gif;base64,AAAA'')",
             THEN conjunct2, THEN mp, OF b, THEN conjunct1]
  show ?thesis by (rule conjI [OF 1 2])
qed

text \<open>
  Claim C3 as stated fails when the read of an accepted file ends in an \<open>error\<close> event:
  \<open>onImageSelect\<close> is then not called.
\<close>

theorem processFile_read_error_counterexample:
  "file_type \<lparr>file_type = ''image/png'', file_size = 2097152\<rparr>
     \<in> set [''image/jpeg'', ''image/png'', ''image/webp'']
   \<and> file_size \<lparr>file_type = ''image/png'', file_size = 2097152\<rparr> \<le> 10 * 1024 * 1024
   \<and> length (snd (processFile [''image/jpeg'', ''image/png'', ''image/webp''] 10
                     \<lparr>file_type = ''image/png'', file_size = 2097152\<rparr> OnError)) \<noteq> 1"
  by (simp add: processFile_def)

section \<open>Properties of the result view\<close>

text \<open>
  Claim C6. For every result whose \<open>identified\<close> is false, \<open>PlantDetails\<close> returns the
  view headed \<open>Identification Uncertain\<close> and not the detail view, whatever the other
  fields hold.
\<close>

theorem PlantDetails_uncertain:
  assumes "\<not> identified data"
  shows "PlantDetails data = UncertainView ''Identification Uncertain''
         \<and> (\<forall>d. PlantDetails data \<noteq> DetailView d)
         \<and> (\<forall>other. \<not> identified other \<longrightarrow> PlantDetails other = PlantDetails data)"
  using assms by (simp add: PlantDetails_def)

theorem PlantDetails_uncertain_witness:
  "PlantDetails (neem\<lparr>identified := False\<rparr>) = UncertainView ''Identification Uncertain''
   \<and> commonName (neem\<lparr>identified := False\<rparr>) = Some ''Neem''"
proof -
  have h: "\<not> identified (neem\<lparr>identified := False\<rparr>)" by simp
  have c: "commonName (neem\<lparr>identified := False\<rparr>) = Some ''Neem''" by (simp add: neem_def)
  show ?thesis by (rule conjI [OF conjunct1 [OF PlantDetails_uncertain [OF h]] c])
qed

section \<open>Properties of the application state\<close>


lemma handleImageSelect_as_events:
  "app (run_events [Select img] r) = fst (handleImageSelect key gen parse img (app r))
   \<and> (pending r = [] \<longrightarrow>
        app (run_events [Select img, Settle 0 (fst (analyzePlantImage key gen parse img))] r)
          = fst (snd (handleImageSelect key gen parse img (app r))))"
  by (simp add: run_events_def handleImageSelect_def Let_def split: prod.splits)







section \<open>Properties of the camera\<close>

lemma stopCamera_released:
  "stream (stopCamera s) = None \<and> \<not> isCameraOpen (stopCamera s)
   \<and> (\<forall>tracks. stream s = Some tracks \<longrightarrow> set tracks \<inter> live_tracks (stopCamera s) = {})"
  by (auto simp: stopCamera_def split: option.splits)

lemma stopCamera_idem: "stopCamera (stopCamera s) = stopCamera s"
  by (simp add: stopCamera_def split: option.splits)

lemma capturePhoto_keeps:
  "isCameraOpen (fst (capturePhoto v s)) = isCameraOpen s \<and> stream (fst (capturePhoto v s)) = stream s
   \<and> live_tracks (fst (capturePhoto v s)) = live_tracks s"
  by (simp add: capturePhoto_def split: option.splits)

lemma capturePhoto_timeout_success:
  "stream (capturePhoto_timeout (Some video) True dataUrl s) = None
   \<and> \<not> isCameraOpen (capturePhoto_timeout (Some video) True dataUrl s)
   \<and> (\<forall>tracks. stream s = Some tracks
         \<longrightarrow> set tracks \<inter> live_tracks (capturePhoto_timeout (Some video) True dataUrl s) = {})
   \<and> selected (capturePhoto_timeout (Some video) True dataUrl s) = selected s @ [dataUrl]"
  using stopCamera_released [of s]
  by (auto simp: capturePhoto_timeout_def Let_def) (auto simp: stopCamera_def split: option.splits)

lemma capturePhoto_timeout_failure:
  "stream (capturePhoto_timeout v False dataUrl s) = stream s
   \<and> isCameraOpen (capturePhoto_timeout v False dataUrl s) = isCameraOpen s
   \<and> cameraError (capturePhoto_timeout v False dataUrl s) = cameraError s
   \<and> live_tracks (capturePhoto_timeout v False dataUrl s) = live_tracks s
   \<and> selected (capturePhoto_timeout v False dataUrl s) = selected s"
  by (simp add: capturePhoto_timeout_def split: option.splits)

lemma camera_step_exit:
  assumes "isCameraOpen s" "\<not> isCameraOpen (camera_step s e)"
  shows "stream (camera_step s e) = None
         \<and> (\<forall>tracks. stream s = Some tracks \<longrightarrow> set tracks \<inter> live_tracks (camera_step s e) = {})"
proof (cases e)
  case Cancel
  then show ?thesis using stopCamera_released [of s] by simp
next
  case (CaptureClick v)
  with assms capturePhoto_keeps [of v s] show ?thesis by simp
next
  case (CaptureTimeout v ctx dataUrl)
  show ?thesis
  proof (cases v)
    case None
    with assms CaptureTimeout show ?thesis by (simp add: capturePhoto_timeout_def)
  next
    case (Some video)
    show ?thesis
    proof (cases ctx)
      case True
      with Some CaptureTimeout capturePhoto_timeout_success [of video dataUrl s]
      show ?thesis by simp
    next
      case False
      with assms CaptureTimeout capturePhoto_timeout_failure [of v dataUrl s]
      show ?thesis by simp
    qed
  qed
qed

text \<open>
  Claim C9, as the code has it. \<open>stopCamera\<close> (the user's cancel) stops every track of
  the stream, clears the handle and closes the view, and doing it twice is the same as
  doing it once. A capture that gets its drawing context does the same and hands the
  picture to \<open>onImageSelect\<close>. Every step that takes the camera out of its live state
  leaves no stream handle and no live track of that stream. A capture that gets no
  drawing context is not such a step: the camera stays live and keeps its stream.
\<close>

theorem camera_release:
  "(stream (stopCamera s) = None \<and> \<not> isCameraOpen (stopCamera s)
     \<and> (\<forall>tracks. stream s = Some tracks \<longrightarrow> set tracks \<inter> live_tracks (stopCamera s) = {}))
   \<and> stopCamera (stopCamera s) = stopCamera s
   \<and> (stream (capturePhoto_timeout (Some video) True dataUrl s) = None
     \<and> \<not> isCameraOpen (capturePhoto_timeout (Some video) True dataUrl s)
     \<and> (\<forall>tracks. stream s = Some tracks
           \<longrightarrow> set tracks \<inter> live_tracks (capturePhoto_timeout (Some video) True dataUrl s) = {})
     \<and> selected (capturePhoto_timeout (Some video) True dataUrl s) = selected s @ [dataUrl])
   \<and> (live s \<and> \<not> live (camera_step s e)
     \<longrightarrow> stream (camera_step s e) = None
       \<and> (\<forall>tracks. stream s = Some tracks \<longrightarrow> set tracks \<inter> live_tracks (camera_step s e) = {}))
   \<and> (live s
     \<longrightarrow> live (capturePhoto_timeout (Some video) False dataUrl s)
       \<and> stream (capturePhoto_timeout (Some video) False dataUrl s) = stream s
       \<and> live_tracks (capturePhoto_timeout (Some video) False dataUrl s) = live_tracks s)"
proof (intro conjI impI)
  assume a: "live s \<and> \<not> live (camera_step s e)"
  then have o: "isCameraOpen s" by (simp add: live_def)
  show "stream (camera_step s e) = None"
  proof (cases "isCameraOpen (camera_step s e)")
    case False
    with o camera_step_exit [of s e] show ?thesis by simp
  next
    case True
    with a have "stream (camera_step s e) = None \<or> cameraError (camera_step s e) \<noteq> None"
      by (auto simp: live_def)
    moreover have "cameraError (camera_step s e) = None"
      using a by (cases e)
        (auto simp: live_def stopCamera_def capturePhoto_def capturePhoto_timeout_def Let_def
              split: option.splits if_splits)
    ultimately show ?thesis by simp
  qed
next
  assume a: "live s \<and> \<not> live (camera_step s e)"
  then have o: "isCameraOpen s" and n: "cameraError s = None" and st: "stream s \<noteq> None"
    by (simp_all add: live_def)
  have "\<not> isCameraOpen (camera_step s e)"
  proof
    assume op: "isCameraOpen (camera_step s e)"
    have "stream (camera_step s e) \<noteq> None \<and> cameraError (camera_step s e) = None"
      using op o n st by (cases e)
        (auto simp: stopCamera_def capturePhoto_def capturePhoto_timeout_def Let_def
              split: option.splits if_splits)
    with op a show False by (simp add: live_def)
  qed
  with o camera_step_exit [of s e]
  show "\<forall>tracks. stream s = Some tracks \<longrightarrow> set tracks \<inter> live_tracks (camera_step s e) = {}"
    by simp
qed (simp_all add: stopCamera_released stopCamera_idem capturePhoto_timeout_success
       capturePhoto_timeout_failure live_def)

theorem camera_release_witness:
  "live live_camera
   \<and> \<not> live (camera_step live_camera Cancel)
   \<and> stream (camera_step live_camera Cancel) = None
   \<and> set [0] \<inter> live_tracks (camera_step live_camera Cancel) = {}"
proof -
  have h: "live live_camera \<and> \<not> live (camera_step live_camera Cancel)"
    by (simp add: live_def live_camera_def stopCamera_def)
  have g: "stream live_camera = Some [0]" by (simp add: live_camera_def)
  note t = camera_release [of live_camera "\<lparr>videoWidth = 640, videoHeight = 480\<rparr>" "''data:,''" Cancel,
             THEN conjunct2, THEN conjunct2, THEN conjunct2, THEN conjunct1, THEN mp, OF h]
  note u = t [THEN conjunct2, THEN spec, THEN mp, OF g]
  show ?thesis
    by (rule conjI [OF conjunct1 [OF h] conjI [OF conjunct2 [OF h] conjI [OF conjunct1 [OF t] u]]])
qed

text \<open>
  Claim C9 as stated fails for a capture that gets no drawing context: after it the
  stream handle is still there and its track is still live.
\<close>

theorem capture_without_context_counterexample:
  "live live_camera
   \<and> stream (capturePhoto_timeout (Some \<lparr>videoWidth = 640, videoHeight = 480\<rparr>) False ''data:,'' live_camera)
       = Some [0]
   \<and> 0 \<in> live_tracks (capturePhoto_timeout (Some \<lparr>videoWidth = 640, videoHeight = 480\<rparr>) False ''data:,'' live_camera)"
  by (simp add: live_def live_camera_def capturePhoto_timeout_def)

end
